theory Spec2Isabelle
  imports Main
begin

section \<open>Python values and exceptions\<close>

text \<open>
  The scheduler reads its schedule descriptions with \<open>json.load\<close>, so the data it works
  on are the Python values a JSON document decodes to: \<open>None\<close>, booleans, integers,
  strings, lists and dictionaries (a dictionary as the list of its items, in order;
  fractional numbers are left out). The same values are the states a Modbus binary
  sensor takes.
\<close>

datatype pyval =
    PNone
  | PBool bool
  | PInt int
  | PStr string
  | PList "pyval list"
  | PDict "(string \<times> pyval) list"

datatype error =
    KeyError string
  | TypeError
  | IndexError
  | AttributeError string
  | OSError
  | PluginRaised string

text \<open>Python's truth value of an object, as \<open>x or y\<close> and \<open>if x:\<close> test it.\<close>

fun truthy :: "pyval \<Rightarrow> bool" where
  "truthy PNone = False"
| "truthy (PBool b) = b"
| "truthy (PInt i) = (i \<noteq> 0)"
| "truthy (PStr s) = (s \<noteq> [])"
| "truthy (PList xs) = (xs \<noteq> [])"
| "truthy (PDict kvs) = (kvs \<noteq> [])"

definition py_or :: "pyval \<Rightarrow> pyval \<Rightarrow> pyval" where
  "py_or x y = (if truthy x then x else y)"

text \<open>\<open>d[key]\<close> with a string key: only a dictionary can be subscripted so.\<close>

fun getitem :: "pyval \<Rightarrow> string \<Rightarrow> error + pyval" where
  "getitem (PDict kvs) k =
     (case map_of kvs k of None \<Rightarrow> Inl (KeyError k) | Some v \<Rightarrow> Inr v)"
| "getitem v k = Inl TypeError"

text \<open>The elements a \<open>for\<close> loop draws from a value.\<close>

fun py_iter :: "pyval \<Rightarrow> error + pyval list" where
  "py_iter (PList xs) = Inr xs"
| "py_iter (PStr s) = Inr (map (\<lambda>c. PStr [c]) s)"
| "py_iter (PDict kvs) = Inr (map (\<lambda>kv. PStr (fst kv)) kvs)"
| "py_iter v = Inl TypeError"

text \<open>Decimal notation of an integer, as \<open>str\<close> and an f-string print it.\<close>

function str_nat :: "nat \<Rightarrow> string" where
  "str_nat n =
     (if n < 10 then [char_of (48 + n)]
      else str_nat (n div 10) @ [char_of (48 + n mod 10)])"
  by pat_completeness auto
termination
  by (relation "measure (\<lambda>n. n)") auto

definition str_int :: "int \<Rightarrow> string" where
  "str_int i = (if i < 0 then CHR ''-'' # str_nat (nat (- i)) else str_nat (nat i))"

section \<open>Modbus binary sensors\<close>

record virtualBinarySensor =
  v_name :: string
  v_device_class :: "string option"
  v_state :: pyval
  v_available :: bool
  v_ha_updates :: nat

text \<open>\<open>virtualBinarySensor.__init__\<close>\<close>

definition virtualBinarySensor_init :: "string \<Rightarrow> string option \<Rightarrow> virtualBinarySensor" where
  "virtualBinarySensor_init name device_class =
     \<lparr>v_name = name, v_device_class = device_class, v_state = PNone,
      v_available = True, v_ha_updates = 0\<rparr>"

text \<open>\<open>virtualBinarySensor.set_from_master\<close>\<close>

definition set_from_master :: "pyval \<Rightarrow> bool \<Rightarrow> virtualBinarySensor \<Rightarrow> virtualBinarySensor" where
  "set_from_master state available self =
     self\<lparr>v_state := state, v_available := available,
          v_ha_updates := Suc (v_ha_updates self)\<rparr>"

text \<open>
  \<open>_create_virtual\<close>. The bounds of \<open>range\<close> are computed once, before the first
  \<open>append\<close>, so the generated names are numbered from \<open>len(names) + 1\<close> of the list
  as passed in. Both loops are folds over their ranges.
\<close>

definition create_virtual ::
  "string \<Rightarrow> string option \<Rightarrow> int option \<Rightarrow> string list option \<Rightarrow> virtualBinarySensor list" where
  "create_virtual sensor_name device_class count names =
     (let count = (case count of None \<Rightarrow> 0 | Some c \<Rightarrow> c);
          names = (case names of None \<Rightarrow> [] | Some ns \<Rightarrow> ns);
          names = foldl (\<lambda>ns i. ns @ [sensor_name @ ''_'' @ str_int i]) names
                    [int (length names) + 1 .. count]
      in foldl (\<lambda>vs name. vs @ [virtualBinarySensor_init name device_class]) [] names)"

record ModbusBinarySensor =
  m_value :: pyval
  m_available :: bool
  m_virtual_sensors :: "virtualBinarySensor list option"
  m_ha_scheduled :: nat
  m_ha_written :: nat

text \<open>
  \<open>ModbusBinarySensor.__init__\<close> keeps the virtual sensors, or \<open>None\<close> when there are
  none. The value and the availability are fields of the base platform.
\<close>

definition ModbusBinarySensor_init ::
  "pyval \<Rightarrow> bool \<Rightarrow> virtualBinarySensor list \<Rightarrow> ModbusBinarySensor" where
  "ModbusBinarySensor_init value available virtual_sensors =
     \<lparr>m_value = value, m_available = available,
      m_virtual_sensors = (if length virtual_sensors = 0 then None else Some virtual_sensors),
      m_ha_scheduled = 0, m_ha_written = 0\<rparr>"

text \<open>
  The loop \<open>for entry in self._virtual_sensors: entry.set_from_master(...)\<close>, guarded by
  \<open>if self._virtual_sensors\<close>.
\<close>

definition broadcast :: "ModbusBinarySensor \<Rightarrow> ModbusBinarySensor" where
  "broadcast self =
     (case m_virtual_sensors self of
        None \<Rightarrow> self
      | Some vs \<Rightarrow>
          if vs \<noteq> []
          then self\<lparr>m_virtual_sensors :=
                 Some (map (set_from_master (m_value self) (m_available self)) vs)\<rparr>
          else self)"

text \<open>
  \<open>ModbusBinarySensor.async_update\<close>. The argument \<open>result\<close> is what the hub call
  returned: \<open>None\<close>, or a response whose \<open>bits\<close> are given. \<open>result.bits[0]\<close> raises
  \<open>IndexError\<close> on an empty list, before any field is written.
\<close>

definition async_update :: "bool list option \<Rightarrow> ModbusBinarySensor \<Rightarrow> error + ModbusBinarySensor" where
  "async_update result self =
     (case result of
        None \<Rightarrow>
          (let self = self\<lparr>m_available := False\<rparr>;
               self = broadcast self
           in Inr (self\<lparr>m_ha_written := Suc (m_ha_written self)\<rparr>))
      | Some bits \<Rightarrow>
          (case bits of
             [] \<Rightarrow> Inl IndexError
           | b # _ \<Rightarrow>
               (let self = self\<lparr>m_value := PInt (if b then 1 else 0)\<rparr>;
                    self = self\<lparr>m_available := True\<rparr>;
                    self = broadcast self
                in Inr (self\<lparr>m_ha_scheduled := Suc (m_ha_scheduled self),
                              m_ha_written := Suc (m_ha_written self)\<rparr>))))"

text \<open>The virtual sensors attached to a master sensor.\<close>

definition attached :: "ModbusBinarySensor \<Rightarrow> virtualBinarySensor list" where
  "attached self = (case m_virtual_sensors self of None \<Rightarrow> [] | Some vs \<Rightarrow> vs)"

section \<open>The scheduler component\<close>

text \<open>
  \<open>str(x)\<close>, which \<open>'scheduler.{}'.format(x)\<close> applies to its argument. A string
  prints as itself. Inside a list or a dictionary it prints as \<open>repr\<close> does: between
  apostrophes, or between double quotes when it holds an apostrophe and no double quote;
  the quote character and the backslash are escaped with a backslash, tab, newline and
  carriage return print as a backslash and the letter t, n or r, and the other characters
  that are not printable as a backslash, the letter x and two hexadecimal digits. A
  character stands for a code point below 256.
\<close>

fun join :: "string \<Rightarrow> string list \<Rightarrow> string" where
  "join sep [] = []"
| "join sep [x] = x"
| "join sep (x # y # ys) = x @ sep @ join sep (y # ys)"

definition hex_digit :: "nat \<Rightarrow> char" where
  "hex_digit n = (if n < 10 then char_of (48 + n) else char_of (87 + n))"

definition repr_char :: "char \<Rightarrow> char \<Rightarrow> string" where
  "repr_char quote c =
     (let n = (of_char c :: nat) in
      if c = quote \<or> c = CHR 0x5C then [CHR 0x5C, c]
      else if c = CHR 0x09 then [CHR 0x5C, CHR ''t'']
      else if c = CHR 0x0A then [CHR 0x5C, CHR ''n'']
      else if c = CHR 0x0D then [CHR 0x5C, CHR ''r'']
      else if n < 32 \<or> n = 127 \<or> (128 \<le> n \<and> n \<le> 160) \<or> n = 173
      then [CHR 0x5C, CHR ''x'', hex_digit (n div 16), hex_digit (n mod 16)]
      else [c])"

definition repr_str :: "string \<Rightarrow> string" where
  "repr_str s =
     (let quote = (if CHR 0x27 \<in> set s \<and> CHR 0x22 \<notin> set s then CHR 0x22 else CHR 0x27)
      in quote # concat (map (repr_char quote) s) @ [quote])"

fun py_repr :: "pyval \<Rightarrow> string" where
  "py_repr PNone = ''None''"
| "py_repr (PBool b) = (if b then ''True'' else ''False'')"
| "py_repr (PInt i) = str_int i"
| "py_repr (PStr s) = repr_str s"
| "py_repr (PList xs) = ''['' @ join '', '' (map py_repr xs) @ '']''"
| "py_repr (PDict kvs) =
     ''{'' @ join '', '' (map (\<lambda>(k, v). repr_str k @ '': '' @ py_repr v) kvs) @ ''}''"

definition py_str :: "pyval \<Rightarrow> string" where
  "py_str v = (case v of PStr s \<Rightarrow> s | _ \<Rightarrow> py_repr v)"

text \<open>
  Objects live in a store: a \<open>Schedule\<close> is referred to by its index in the list of
  the \<open>Schedule\<close> objects constructed so far, and an event listener keeps that index as
  its back-reference \<open>_schedule\<close>.

  \<open>EventListener\<close> is the base class. The concrete listeners are subclasses defined in
  plug-in modules (\<open>scheduler.<type>\<close>) outside this component; an instance of such a
  subclass carries the plug-in's own data \<open>'p\<close>, and the methods that the subclass
  overrides are parameters of the model.
\<close>

type_synonym ref = nat

datatype 'p EventListener = EventListener (l_schedule: ref) (derived: "'p option")

record 'p Schedule =
  schedule_id :: pyval
  name :: pyval
  description :: pyval
  entity_ids :: pyval
  days :: pyval
  event_listeners :: "'p EventListener list"

record ('p, 'h) world =
  heap :: "'p Schedule list"
  hass :: 'h

text \<open>\<open>Schedule.__init__\<close>; an argument left out is \<open>None\<close>.\<close>

definition Schedule_init ::
  "pyval \<Rightarrow> pyval \<Rightarrow> pyval \<Rightarrow> pyval \<Rightarrow> pyval \<Rightarrow> 'p Schedule" where
  "Schedule_init schedule_id' name' description' entity_ids' days' =
     \<lparr>schedule_id = schedule_id',
      name = name',
      description = description',
      entity_ids = py_or entity_ids' (PList []),
      days = py_or days' (PList [PInt 0, PInt 1, PInt 2, PInt 3, PInt 4, PInt 5, PInt 6]),
      event_listeners = []\<rparr>"

text \<open>\<open>Schedule.add_event_listener\<close>, on the object at \<open>self\<close>.\<close>

definition add_event_listener ::
  "ref \<Rightarrow> 'p EventListener \<Rightarrow> ('p, 'h) world \<Rightarrow> ('p, 'h) world" where
  "add_event_listener self event_listener w =
     w\<lparr>heap := (heap w)[self :=
          (heap w ! self)\<lparr>event_listeners :=
             event_listeners (heap w ! self) @ [event_listener]\<rparr>]\<rparr>"

text \<open>\<open>EventListener.__init__\<close>, \<open>EventListener.schedule\<close> and \<open>EventListener.execute\<close>.\<close>

definition EventListener_init :: "ref \<Rightarrow> 'p EventListener" where
  "EventListener_init schedule = EventListener schedule None"

definition EventListener_schedule ::
  "'p EventListener \<Rightarrow> ('p, 'h) world \<Rightarrow> (error + pyval) \<times> ('p, 'h) world" where
  "EventListener_schedule self w = (Inr PNone, w)"

definition EventListener_execute ::
  "'p EventListener \<Rightarrow> ('p, 'h) world \<Rightarrow> (error + pyval) \<times> ('p, 'h) world" where
  "EventListener_execute self w = (Inr PNone, w)"

text \<open>
  The call \<open>event.schedule(hass)\<close>: an instance of the base class runs
  \<open>EventListener.schedule\<close>; an instance of a plug-in's subclass runs the plug-in's
  method \<open>ps\<close>, which is given the listener, the store to read through the
  back-reference, and \<open>hass\<close>, and either raises or returns the new \<open>hass\<close>.
\<close>

type_synonym ('p, 'h) plugin_schedule =
  "'p EventListener \<Rightarrow> 'p Schedule list \<Rightarrow> 'h \<Rightarrow> error + 'h"

definition call_schedule ::
  "('p, 'h) plugin_schedule \<Rightarrow> 'p EventListener \<Rightarrow> ('p, 'h) world \<Rightarrow>
   (error + pyval) \<times> ('p, 'h) world" where
  "call_schedule ps event w =
     (case derived event of
        None \<Rightarrow> EventListener_schedule event w
      | Some p \<Rightarrow>
          (case ps event (heap w) (hass w) of
             Inl e \<Rightarrow> (Inl e, w)
           | Inr h \<Rightarrow> (Inr PNone, w\<lparr>hass := h\<rparr>)))"

text \<open>\<open>Schedule.schedule\<close>: the loop over \<open>self._event_listeners\<close>, then the method.\<close>

fun schedule_events ::
  "('p, 'h) plugin_schedule \<Rightarrow> 'p EventListener list \<Rightarrow> ('p, 'h) world \<Rightarrow>
   (error + pyval) \<times> ('p, 'h) world" where
  "schedule_events ps [] w = (Inr PNone, w)"
| "schedule_events ps (event # events) w =
     (case call_schedule ps event w of
        (Inl e, w') \<Rightarrow> (Inl e, w')
      | (Inr _, w') \<Rightarrow> schedule_events ps events w')"

definition Schedule_schedule ::
  "('p, 'h) plugin_schedule \<Rightarrow> ref \<Rightarrow> ('p, 'h) world \<Rightarrow>
   (error + pyval) \<times> ('p, 'h) world" where
  "Schedule_schedule ps self w = schedule_events ps (event_listeners (heap w ! self)) w"

text \<open>
  \<open>get_component\<close> belongs to the loader, outside this component, and is a parameter:
  given the component's name it raises, returns \<open>None\<close>, or returns a module, of which
  only the function \<open>create(schedule, event_data)\<close> is used. \<open>create\<close> is given the
  reference to the schedule, the schedule as it is at the call, and the event record.
\<close>

type_synonym 'p component = "ref \<Rightarrow> 'p Schedule \<Rightarrow> pyval \<Rightarrow> error + 'p EventListener"

type_synonym 'p loader = "string \<Rightarrow> error + 'p component option"

text \<open>The loop \<open>for event_data in schedule_data['events']\<close> of \<open>setup_schedule\<close>.\<close>

fun add_events ::
  "'p loader \<Rightarrow> ref \<Rightarrow> pyval list \<Rightarrow> ('p, 'h) world \<Rightarrow> (error + pyval) \<times> ('p, 'h) world" where
  "add_events get_component schedule [] w = (Inr PNone, w)"
| "add_events get_component schedule (event_data # rest) w =
     (case getitem event_data ''type'' of
        Inl e \<Rightarrow> (Inl e, w)
      | Inr t \<Rightarrow>
          (case get_component (''scheduler.'' @ py_str t) of
             Inl e \<Rightarrow> (Inl e, w)
           | Inr None \<Rightarrow> (Inl (AttributeError ''create''), w)
           | Inr (Some create) \<Rightarrow>
               (case create schedule (heap w ! schedule) event_data of
                  Inl e \<Rightarrow> (Inl e, w)
                | Inr event_listener \<Rightarrow>
                    add_events get_component schedule rest
                      (add_event_listener schedule event_listener w))))"

text \<open>
  \<open>setup_schedule\<close>, the function local to \<open>setup\<close>. The five subscripts are evaluated
  in the order written, then the \<open>Schedule\<close> is constructed, then the events are read.
\<close>

definition setup_schedule ::
  "'p loader \<Rightarrow> ('p, 'h) plugin_schedule \<Rightarrow> pyval \<Rightarrow> ('p, 'h) world \<Rightarrow>
   (error + bool) \<times> ('p, 'h) world" where
  "setup_schedule get_component ps schedule_data w =
     (case getitem schedule_data ''id'' of Inl e \<Rightarrow> (Inl e, w) | Inr i \<Rightarrow>
     (case getitem schedule_data ''name'' of Inl e \<Rightarrow> (Inl e, w) | Inr n \<Rightarrow>
     (case getitem schedule_data ''description'' of Inl e \<Rightarrow> (Inl e, w) | Inr d \<Rightarrow>
     (case getitem schedule_data ''entity_ids'' of Inl e \<Rightarrow> (Inl e, w) | Inr es \<Rightarrow>
     (case getitem schedule_data ''days'' of Inl e \<Rightarrow> (Inl e, w) | Inr ds \<Rightarrow>
        (let schedule = length (heap w);
             w1 = w\<lparr>heap := heap w @ [Schedule_init i n d es ds]\<rparr>
         in (case getitem schedule_data ''events'' of Inl e \<Rightarrow> (Inl e, w1) | Inr evs \<Rightarrow>
            (case py_iter evs of Inl e \<Rightarrow> (Inl e, w1) | Inr event_datas \<Rightarrow>
            (case add_events get_component schedule event_datas w1 of
               (Inl e, w2) \<Rightarrow> (Inl e, w2)
             | (Inr _, w2) \<Rightarrow>
                 (case Schedule_schedule ps schedule w2 of
                    (Inl e, w3) \<Rightarrow> (Inl e, w3)
                  | (Inr _, w3) \<Rightarrow> (Inr True, w3)))))))))))"

text \<open>
  The component's \<open>setup(hass, config)\<close>. The argument \<open>schedule_file\<close> is the
  outcome of opening the schedule file
  and decoding it: an exception, or the decoded value.
\<close>

fun setup_schedules ::
  "'p loader \<Rightarrow> ('p, 'h) plugin_schedule \<Rightarrow> pyval list \<Rightarrow> ('p, 'h) world \<Rightarrow>
   (error + bool) \<times> ('p, 'h) world" where
  "setup_schedules get_component ps [] w = (Inr True, w)"
| "setup_schedules get_component ps (schedule_description # rest) w =
     (case setup_schedule get_component ps schedule_description w of
        (Inl e, w') \<Rightarrow> (Inl e, w')
      | (Inr ok, w') \<Rightarrow>
          if \<not> ok then (Inr False, w')
          else setup_schedules get_component ps rest w')"

definition scheduler_setup ::
  "'p loader \<Rightarrow> ('p, 'h) plugin_schedule \<Rightarrow> error + pyval \<Rightarrow> ('p, 'h) world \<Rightarrow>
   (error + bool) \<times> ('p, 'h) world" where
  "scheduler_setup get_component ps schedule_file w =
     (case schedule_file of
        Inl e \<Rightarrow> (Inl e, w)
      | Inr schedule_descriptions \<Rightarrow>
          (case py_iter schedule_descriptions of
             Inl e \<Rightarrow> (Inl e, w)
           | Inr ds \<Rightarrow> setup_schedules get_component ps ds w))"

section \<open>The clock that fires the triggers\<close>

text \<open>
  Modelled from the spec: the trigger registration record of the Scheduler Clock, which
  is not part of the component's source. \<open>fireAt\<close> is the next wake-up instant,
  \<open>weekdayGate\<close> the owning schedule's active days and \<open>handler\<close> the listener to invoke.
\<close>

record 'p trigger =
  fireAt :: nat
  weekdayGate :: "int list"
  handler :: "'p EventListener"

text \<open>
  Modelled from the spec: the state of the Scheduler Clock, its pending triggers ordered
  by \<open>fireAt\<close>, together with the record of the \<open>execute\<close> calls it has made (the
  listener and the instant of the call).
\<close>

record 'p clock =
  pending :: "'p trigger list"
  executed :: "('p EventListener \<times> nat) list"

text \<open>
  Modelled from the spec: the active days of a schedule as a collection of weekday
  numbers, read from the field \<open>days\<close> that \<open>Schedule.__init__\<close> sets.
\<close>

definition activeDays :: "'p Schedule \<Rightarrow> int list" where
  "activeDays s =
     (case days s of
        PList ds \<Rightarrow> List.map_filter (\<lambda>v. case v of PInt i \<Rightarrow> Some i | _ \<Rightarrow> None) ds
      | _ \<Rightarrow> [])"

text \<open>
  Modelled from the spec: \<open>registerTrigger\<close> of the Scheduler Clock. The pending
  triggers are kept ordered by \<open>fireAt\<close>, a new trigger going behind those of the same
  instant.
\<close>

fun insert_trigger :: "'p trigger \<Rightarrow> 'p trigger list \<Rightarrow> 'p trigger list" where
  "insert_trigger t [] = [t]"
| "insert_trigger t (u # us) =
     (if fireAt u \<le> fireAt t then u # insert_trigger t us else t # u # us)"

definition registerTrigger :: "'p trigger \<Rightarrow> 'p clock \<Rightarrow> 'p clock" where
  "registerTrigger t clk = clk\<lparr>pending := insert_trigger t (pending clk)\<rparr>"

text \<open>
  Modelled from the spec: \<open>register(clock)\<close> of an event handler, the method that a
  plug-in's listener runs as \<open>schedule(hass)\<close>, with the clock in the place of
  \<open>hass\<close>. It computes the first \<open>fireAt\<close> with the variant's \<open>computeNextFireTime\<close>
  (a parameter) at the instant \<open>now\<close> and inserts one trigger, gated by the active days
  of the schedule the listener refers to.
\<close>

definition register ::
  "('p EventListener \<Rightarrow> nat \<Rightarrow> nat) \<Rightarrow> nat \<Rightarrow> ('p, 'p clock) plugin_schedule" where
  "register computeNextFireTime now event schedules clk =
     Inr (registerTrigger
            \<lparr>fireAt = computeNextFireTime event now,
             weekdayGate = activeDays (schedules ! l_schedule event),
             handler = event\<rparr> clk)"

text \<open>
  Modelled from the spec: what the Scheduler Clock does with one popped trigger at the
  instant \<open>now\<close>. If the weekday of \<open>now\<close> (given by the parameter \<open>weekday\<close>) is in
  the trigger's gate, the handler's \<open>execute\<close> is invoked; fired or skipped, \<open>fireAt\<close>
  is recomputed and the trigger is inserted again.
\<close>

definition fire ::
  "('p EventListener \<Rightarrow> nat \<Rightarrow> nat) \<Rightarrow> (nat \<Rightarrow> int) \<Rightarrow> nat \<Rightarrow> 'p trigger \<Rightarrow> 'p clock \<Rightarrow> 'p clock" where
  "fire computeNextFireTime weekday now t clk =
     (let clk1 = (if weekday now \<in> set (weekdayGate t)
                  then clk\<lparr>executed := executed clk @ [(handler t, now)]\<rparr>
                  else clk)
      in registerTrigger (t\<lparr>fireAt := computeNextFireTime (handler t) now\<rparr>) clk1)"

text \<open>
  Modelled from the spec: \<open>tick\<close> of the Scheduler Clock at the instant \<open>now\<close>. All
  triggers with \<open>fireAt \<le> now\<close> are popped, then each is handled in turn.
\<close>

definition tick ::
  "('p EventListener \<Rightarrow> nat \<Rightarrow> nat) \<Rightarrow> (nat \<Rightarrow> int) \<Rightarrow> nat \<Rightarrow> 'p clock \<Rightarrow> 'p clock" where
  "tick computeNextFireTime weekday now clk =
     (let due = filter (\<lambda>t. fireAt t \<le> now) (pending clk);
          later = filter (\<lambda>t. \<not> fireAt t \<le> now) (pending clk)
      in fold (fire computeNextFireTime weekday now) due (clk\<lparr>pending := later\<rparr>))"

text \<open>Modelled from the spec: the clock driven through a sequence of instants.\<close>

definition ticks ::
  "('p EventListener \<Rightarrow> nat \<Rightarrow> nat) \<Rightarrow> (nat \<Rightarrow> int) \<Rightarrow> nat list \<Rightarrow> 'p clock \<Rightarrow> 'p clock" where
  "ticks computeNextFireTime weekday nows clk =
     fold (tick computeNextFireTime weekday) nows clk"

section \<open>Example plug-ins and schedule descriptions\<close>

text \<open>
  Concrete inputs for the evaluations below: a loader that finds no component (it
  returns \<open>None\<close>, as the loader does for an unknown name), a loader that knows the one
  plug-in \<open>scheduler.time\<close>, whose \<open>create\<close> reads the time of day (in seconds) from
  the event record, and a few schedule descriptions.
\<close>

definition no_components :: "'p loader" where
  "no_components comp_name = Inr None"

definition time_create :: "nat component" where
  "time_create schedule s event_data =
     (case getitem event_data ''time'' of
        Inl e \<Rightarrow> Inl e
      | Inr v \<Rightarrow> (case v of PInt t \<Rightarrow> Inr (EventListener schedule (Some (nat t)))
                  | _ \<Rightarrow> Inl TypeError))"

definition time_loader :: "nat loader" where
  "time_loader comp_name =
     (if comp_name = ''scheduler.time'' then Inr (Some time_create) else Inr None)"

text \<open>
  A \<open>computeNextFireTime\<close> for the time-of-day listeners: the first instant after
  \<open>after\<close> (in seconds) at which the time of day is the listener's. The weekday of an
  instant is counted from a Thursday, Monday being 0.
\<close>

definition daily :: "nat EventListener \<Rightarrow> nat \<Rightarrow> nat" where
  "daily event after =
     (case derived event of
        None \<Rightarrow> after + 86400
      | Some tod \<Rightarrow>
          if after mod 86400 < tod then after - after mod 86400 + tod
          else after - after mod 86400 + 86400 + tod)"

definition weekday_of :: "nat \<Rightarrow> int" where
  "weekday_of now = int ((now div 86400 + 3) mod 7)"

definition two_events :: pyval where
  "two_events =
     PList [PDict [(''type'', PStr ''time''), (''time'', PInt 25200)],
            PDict [(''type'', PStr ''time''), (''time'', PInt 79200)]]"

definition morning_schedule :: pyval where
  "morning_schedule =
     PDict [(''id'', PStr ''morning''), (''name'', PStr ''Morning''),
            (''description'', PStr ''Lights''),
            (''entity_ids'', PList [PStr ''light.kitchen'', PStr ''light.hall'']),
            (''days'', PList [PInt 0, PInt 2, PInt 4]),
            (''events'', two_events)]"

definition foo_schedule :: pyval where
  "foo_schedule =
     PDict [(''id'', PStr ''s1''), (''name'', PStr ''S''), (''description'', PStr ''D''),
            (''entity_ids'', PList [PStr ''light.kitchen'']),
            (''days'', PList [PInt 0]),
            (''events'', PList [PDict [(''type'', PStr ''foo'')]])]"

definition no_days_schedule :: pyval where
  "no_days_schedule =
     PDict [(''id'', PStr ''s2''), (''name'', PStr ''S''), (''description'', PStr ''D''),
            (''entity_ids'', PList [PStr ''light.kitchen'']),
            (''events'', two_events)]"

definition null_days_schedule :: pyval where
  "null_days_schedule =
     PDict [(''id'', PStr ''s3''), (''name'', PStr ''S''), (''description'', PStr ''D''),
            (''entity_ids'', PList [PStr ''light.kitchen'']),
            (''days'', PNone),
            (''events'', two_events)]"

definition half_schedule :: pyval where
  "half_schedule =
     PDict [(''id'', PStr ''s4''), (''name'', PStr ''S''), (''description'', PStr ''D''),
            (''entity_ids'', PList [PStr ''light.kitchen'']),
            (''days'', PList [PInt 0]),
            (''events'', PList [PDict [(''type'', PStr ''time''), (''time'', PInt 25200)],
                                PDict [(''type'', PStr ''foo'')]])]"

definition empty_days_schedule :: pyval where
  "empty_days_schedule =
     PDict [(''id'', PStr ''s5''), (''name'', PStr ''S''), (''description'', PStr ''D''),
            (''entity_ids'', PList [PStr ''light.kitchen'']),
            (''days'', PList []),
            (''events'', two_events)]"

definition empty_clock :: "nat clock" where
  "empty_clock = \<lparr>pending = [], executed = []\<rparr>"

definition empty_world :: "(nat, nat clock) world" where
  "empty_world = \<lparr>heap = [], hass = empty_clock\<rparr>"

text \<open>
  The store as it is once a schedule with two time-of-day listeners has been built and
  before it is scheduled, with the schedule's \<open>days\<close> left open.
\<close>

definition built_world :: "pyval \<Rightarrow> (nat, nat clock) world" where
  "built_world ds =
     \<lparr>heap = [\<lparr>schedule_id = PStr ''morning'', name = PStr ''Morning'',
               description = PStr ''Lights'',
               entity_ids = PList [PStr ''light.kitchen'', PStr ''light.hall''],
               days = ds,
               event_listeners = [EventListener 0 (Some 25200), EventListener 0 (Some 79200)]\<rparr>],
      hass = empty_clock\<rparr>"

section \<open>Properties of the Modbus binary sensors\<close>

lemma foldl_snoc_map: "foldl (\<lambda>acc x. acc @ [f x]) acc xs = acc @ map f xs"
  by (induction xs arbitrary: acc) simp_all

lemma create_virtual_names:
  "map v_name (create_virtual sensor_name device_class count names) =
     (case names of None \<Rightarrow> [] | Some ns \<Rightarrow> ns) @
     map (\<lambda>i. sensor_name @ ''_'' @ str_int i)
       [int (length (case names of None \<Rightarrow> [] | Some ns \<Rightarrow> ns)) + 1 ..
        (case count of None \<Rightarrow> 0 | Some c \<Rightarrow> c)]"
  by (simp add: create_virtual_def Let_def foldl_snoc_map virtualBinarySensor_init_def comp_def)

lemma create_virtual_length:
  "int (length (create_virtual sensor_name device_class count names)) =
     max (case count of None \<Rightarrow> 0 | Some c \<Rightarrow> c)
         (int (length (case names of None \<Rightarrow> [] | Some ns \<Rightarrow> ns)))"
  by (simp add: create_virtual_def Let_def foldl_snoc_map split: option.splits)

lemma create_virtual_class:
  "map v_device_class (create_virtual sensor_name device_class count names) =
     replicate (length (create_virtual sensor_name device_class count names)) device_class"
  by (simp add: create_virtual_def Let_def foldl_snoc_map virtualBinarySensor_init_def
      comp_def map_replicate_const replicate_add)

lemma create_virtual_example:
  "map v_name (create_virtual ''s'' None (Some 3) (Some [''a''])) = [''a'', ''s_2'', ''s_3'']"
  by code_simp

text \<open>
  Claim C10. With a \<open>None\<close> count read as 0 and \<open>None\<close> names as the empty list,
  \<open>_create_virtual\<close> returns \<open>max(count, len(names))\<close> virtual sensors. Their names are
  the given names in order, followed by \<open>"{sensor_name}_{i}"\<close> for \<open>i\<close> from
  \<open>len(names) + 1\<close> to \<open>count\<close>, and each carries the given device class.
\<close>

theorem create_virtual_count_and_names:
  "int (length (create_virtual sensor_name device_class count names)) =
     max (case count of None \<Rightarrow> 0 | Some c \<Rightarrow> c)
         (int (length (case names of None \<Rightarrow> [] | Some ns \<Rightarrow> ns))) \<and>
   map v_name (create_virtual sensor_name device_class count names) =
     (case names of None \<Rightarrow> [] | Some ns \<Rightarrow> ns) @
     map (\<lambda>i. sensor_name @ ''_'' @ str_int i)
       [int (length (case names of None \<Rightarrow> [] | Some ns \<Rightarrow> ns)) + 1 ..
        (case count of None \<Rightarrow> 0 | Some c \<Rightarrow> c)] \<and>
   map v_device_class (create_virtual sensor_name device_class count names) =
     replicate (length (create_virtual sensor_name device_class count names)) device_class"
  using create_virtual_length [of sensor_name device_class count names]
    create_virtual_names [of sensor_name device_class count names]
    create_virtual_class [of sensor_name device_class count names]
  by (intro conjI)

lemma attached_broadcast:
  "attached (broadcast self) =
     map (set_from_master (m_value self) (m_available self)) (attached self)"
  by (simp add: broadcast_def attached_def split: option.splits)

lemma broadcast_fields:
  "m_value (broadcast self) = m_value self" "m_available (broadcast self) = m_available self"
  by (simp_all add: broadcast_def split: option.splits)

lemma attached_update:
  "attached (self\<lparr>m_ha_written := n\<rparr>) = attached self"
  "attached (self\<lparr>m_ha_scheduled := k\<rparr>) = attached self"
  "attached (self\<lparr>m_available := a\<rparr>) = attached self"
  "attached (self\<lparr>m_value := v\<rparr>) = attached self"
  by (simp_all add: attached_def)

text \<open>
  Claim C9. A call of \<open>ModbusBinarySensor.async_update\<close> whose hub response is \<open>None\<close>
  or has at least one bit returns, and afterwards the state and the availability of
  every attached virtual sensor equal the master's value and availability; the attached
  sensors are the same ones. When the response is \<open>None\<close> the master keeps its value,
  is unavailable, and every virtual sensor holds that kept value with
  \<open>available = False\<close>.
\<close>

theorem async_update_broadcasts:
  assumes "result \<noteq> Some []"
  shows "\<exists>self'. async_update result self = Inr self' \<and>
           list_all (\<lambda>v. v_state v = m_value self' \<and> v_available v = m_available self')
             (attached self') \<and>
           map v_name (attached self') = map v_name (attached self) \<and>
           (result = None \<longrightarrow>
              m_value self' = m_value self \<and> \<not> m_available self' \<and>
              list_all (\<lambda>v. v_state v = m_value self \<and> \<not> v_available v) (attached self'))"
proof (cases result)
  case None
  then show ?thesis
    by (simp add: async_update_def Let_def attached_broadcast broadcast_fields attached_update
        list_all_iff set_from_master_def comp_def)
next
  case (Some bits)
  with assms obtain b bs where "bits = b # bs"
    by (cases bits) auto
  with Some show ?thesis
    by (simp add: async_update_def Let_def attached_broadcast broadcast_fields attached_update
        list_all_iff set_from_master_def comp_def)
qed

theorem async_update_broadcasts_witness:
  "(None :: bool list option) \<noteq> Some [] \<and>
   (\<exists>self'. async_update None
       (ModbusBinarySensor_init (PBool True) True
          [virtualBinarySensor_init ''a'' None, virtualBinarySensor_init ''b'' None]) = Inr self' \<and>
      m_value self' = PBool True \<and> \<not> m_available self' \<and>
      map v_state (attached self') = [PBool True, PBool True] \<and>
      map v_available (attached self') = [False, False])"
  using async_update_broadcasts [of None
      "ModbusBinarySensor_init (PBool True) True
         [virtualBinarySensor_init ''a'' None, virtualBinarySensor_init ''b'' None]"]
  by (simp add: async_update_def Let_def broadcast_def attached_def ModbusBinarySensor_init_def
      virtualBinarySensor_init_def set_from_master_def)

section \<open>Properties of the scheduler component\<close>

lemmas example_defs =
  time_loader_def time_create_def no_components_def daily_def weekday_of_def two_events_def
  morning_schedule_def foo_schedule_def no_days_schedule_def null_days_schedule_def
  half_schedule_def empty_days_schedule_def empty_clock_def empty_world_def built_world_def

lemmas scheduler_defs =
  setup_schedule_def Schedule_init_def py_or_def py_str_def add_event_listener_def
  Schedule_schedule_def call_schedule_def EventListener_schedule_def

lemmas clock_defs =
  register_def registerTrigger_def activeDays_def List.map_filter_def fire_def tick_def
  ticks_def

text \<open>
  \<open>str\<close> of a list and of a dictionary, and \<open>repr\<close> of strings holding quotes, a
  backslash, a newline, a control character and a character beyond ASCII.
\<close>

lemma repr_examples:
  "py_str (PList [PStr ''a'', PInt (- 12), PNone, PBool True]) =
     ''['' @ [CHR 0x27] @ ''a'' @ [CHR 0x27] @ '', -12, None, True]''"
  "repr_str (''it'' @ [CHR 0x27] @ ''s'') = [CHR 0x22] @ ''it'' @ [CHR 0x27] @ ''s'' @ [CHR 0x22]"
  "repr_str [CHR 0x27, CHR 0x22, CHR 0x5C, CHR 0x0A, CHR 0x01, CHR 0xE9] =
     [CHR 0x27, CHR 0x5C, CHR 0x27, CHR 0x22, CHR 0x5C, CHR 0x5C, CHR 0x5C, CHR ''n'',
      CHR 0x5C, CHR ''x'', CHR ''0'', CHR ''1'', CHR 0xE9, CHR 0x27]"
  "py_str (PDict [(''k'', PList [])]) = ''{'' @ [CHR 0x27] @ ''k'' @ [CHR 0x27] @ '': []}''"
  by code_simp+

lemma call_schedule_heap: "call_schedule ps l w = (res, w') \<Longrightarrow> heap w' = heap w"
  by (auto simp: call_schedule_def EventListener_schedule_def split: option.splits sum.splits)

lemma schedule_events_heap: "schedule_events ps ls w = (res, w') \<Longrightarrow> heap w' = heap w"
proof (induction ls arbitrary: w)
  case Nil
  then show ?case by simp
next
  case (Cons l ls)
  obtain r1 w1 where c: "call_schedule ps l w = (r1, w1)" by (cases "call_schedule ps l w")
  then have h: "heap w1 = heap w" by (rule call_schedule_heap)
  show ?case
  proof (cases r1)
    case (Inl e)
    with Cons.prems c h show ?thesis by simp
  next
    case (Inr v)
    with Cons.prems c have "schedule_events ps ls w1 = (res, w')" by simp
    then have "heap w' = heap w1" by (rule Cons.IH)
    with h show ?thesis by simp
  qed
qed

lemma schedule_events_Inr: "schedule_events ps ls w = (Inr v, w') \<Longrightarrow> v = PNone"
proof (induction ls arbitrary: w)
  case Nil
  then show ?case by simp
next
  case (Cons l ls)
  then show ?case
    by (auto split: prod.splits sum.splits)
qed

lemma setup_schedule_True: "setup_schedule gc ps sd w = (Inr ok, w') \<Longrightarrow> ok"
  by (auto simp: setup_schedule_def Let_def split: sum.splits prod.splits)

lemma setup_schedules_True: "setup_schedules gc ps ds w = (Inr ok, w') \<Longrightarrow> ok"
proof (induction ds arbitrary: w)
  case Nil
  then show ?case by simp
next
  case (Cons d ds)
  obtain r1 w1 where c: "setup_schedule gc ps d w = (r1, w1)" by (cases "setup_schedule gc ps d w")
  show ?case
  proof (cases r1)
    case (Inl e)
    with Cons.prems c show ?thesis by simp
  next
    case (Inr b)
    with c have b by (auto dest: setup_schedule_True)
    with Cons.prems c Inr have "setup_schedules gc ps ds w1 = (Inr ok, w')" by simp
    then show ?thesis by (rule Cons.IH)
  qed
qed

lemma add_event_listener_heap:
  "self < length (heap w) \<Longrightarrow>
   heap (add_event_listener self l w) ! self =
     (heap w ! self)\<lparr>event_listeners := event_listeners (heap w ! self) @ [l]\<rparr>"
  "length (heap (add_event_listener self l w)) = length (heap w)"
  "hass (add_event_listener self l w) = hass w"
  by (simp_all add: add_event_listener_def)

lemma add_events_built:
  assumes "add_events gc r evs w = (Inr x, w')" and "r < length (heap w)"
  shows "\<exists>ls. w' = w\<lparr>heap := (heap w)[r :=
                 (heap w ! r)\<lparr>event_listeners := event_listeners (heap w ! r) @ ls\<rparr>]\<rparr> \<and>
              length ls = length evs \<and>
              (\<forall>i<length evs. \<exists>t create.
                  getitem (evs ! i) ''type'' = Inr t \<and>
                  gc (''scheduler.'' @ py_str t) = Inr (Some create) \<and>
                  create r ((heap w ! r)\<lparr>event_listeners :=
                               event_listeners (heap w ! r) @ take i ls\<rparr>) (evs ! i) =
                    Inr (ls ! i))"
  using assms
proof (induction evs arbitrary: w)
  case Nil
  then show ?case by simp
next
  case (Cons ev evs)
  from Cons.prems(1) obtain t create l where
    t: "getitem ev ''type'' = Inr t" and
    g: "gc (''scheduler.'' @ py_str t) = Inr (Some create)" and
    c: "create r (heap w ! r) ev = Inr l" and
    rest: "add_events gc r evs (add_event_listener r l w) = (Inr x, w')"
    by (auto split: sum.splits option.splits)
  let ?w1 = "add_event_listener r l w"
  let ?S = "heap w ! r"
  have r1: "r < length (heap ?w1)" using Cons.prems(2) by (simp add: add_event_listener_heap)
  have S1: "heap ?w1 ! r = ?S\<lparr>event_listeners := event_listeners ?S @ [l]\<rparr>"
    using Cons.prems(2) by (simp add: add_event_listener_heap)
  from Cons.IH [OF rest r1] obtain ls where
    w': "w' = ?w1\<lparr>heap := (heap ?w1)[r :=
                 (heap ?w1 ! r)\<lparr>event_listeners := event_listeners (heap ?w1 ! r) @ ls\<rparr>]\<rparr>" and
    len: "length ls = length evs" and
    each: "\<forall>i<length evs. \<exists>t create.
                  getitem (evs ! i) ''type'' = Inr t \<and>
                  gc (''scheduler.'' @ py_str t) = Inr (Some create) \<and>
                  create r ((heap ?w1 ! r)\<lparr>event_listeners :=
                               event_listeners (heap ?w1 ! r) @ take i ls\<rparr>) (evs ! i) =
                    Inr (ls ! i)"
    by blast
  have w'2: "w' = w\<lparr>heap := (heap w)[r := ?S\<lparr>event_listeners := event_listeners ?S @ (l # ls)\<rparr>]\<rparr>"
    using w' S1 by (simp add: add_event_listener_def)
  have "\<exists>t create.
          getitem ((ev # evs) ! i) ''type'' = Inr t \<and>
          gc (''scheduler.'' @ py_str t) = Inr (Some create) \<and>
          create r (?S\<lparr>event_listeners := event_listeners ?S @ take i (l # ls)\<rparr>) ((ev # evs) ! i) =
            Inr ((l # ls) ! i)" if "i < length (ev # evs)" for i
  proof (cases i)
    case 0
    with t g c show ?thesis by auto
  next
    case (Suc j)
    with that have "j < length evs" by simp
    with each obtain t' create' where
      "getitem (evs ! j) ''type'' = Inr t'" "gc (''scheduler.'' @ py_str t') = Inr (Some create')"
      "create' r ((heap ?w1 ! r)\<lparr>event_listeners :=
                               event_listeners (heap ?w1 ! r) @ take j ls\<rparr>) (evs ! j) = Inr (ls ! j)"
      by blast
    with Suc S1 show ?thesis by auto
  qed
  with w'2 len show ?case
    by (intro exI [of _ "l # ls"]) simp
qed

lemma Schedule_init_listeners: "event_listeners (Schedule_init i n d es ds) = []"
  by (simp add: Schedule_init_def)

lemma setup_schedule_success:
  assumes "setup_schedule gc ps sd w = (Inr ok, w')"
  shows "\<exists>i n d es ds evs event_datas ls.
           getitem sd ''id'' = Inr i \<and> getitem sd ''name'' = Inr n \<and>
           getitem sd ''description'' = Inr d \<and> getitem sd ''entity_ids'' = Inr es \<and>
           getitem sd ''days'' = Inr ds \<and> getitem sd ''events'' = Inr evs \<and>
           py_iter evs = Inr event_datas \<and>
           length ls = length event_datas \<and>
           (\<forall>k<length event_datas. \<exists>t create.
               getitem (event_datas ! k) ''type'' = Inr t \<and>
               gc (''scheduler.'' @ py_str t) = Inr (Some create) \<and>
               create (length (heap w))
                 ((Schedule_init i n d es ds)\<lparr>event_listeners := take k ls\<rparr>)
                 (event_datas ! k) = Inr (ls ! k)) \<and>
           heap w' = heap w @ [(Schedule_init i n d es ds)\<lparr>event_listeners := ls\<rparr>] \<and>
           Schedule_schedule ps (length (heap w)) (w\<lparr>heap := heap w'\<rparr>) = (Inr PNone, w')"
proof -
  from assms obtain i n d es ds evs event_datas x w2 y where
    keys: "getitem sd ''id'' = Inr i" "getitem sd ''name'' = Inr n"
      "getitem sd ''description'' = Inr d" "getitem sd ''entity_ids'' = Inr es"
      "getitem sd ''days'' = Inr ds" "getitem sd ''events'' = Inr evs"
      "py_iter evs = Inr event_datas" and
    add: "add_events gc (length (heap w)) event_datas
            (w\<lparr>heap := heap w @ [Schedule_init i n d es ds]\<rparr>) = (Inr x, w2)" and
    sch: "Schedule_schedule ps (length (heap w)) w2 = (Inr y, w')"
    by (auto simp: setup_schedule_def Let_def split: sum.splits prod.splits)
  let ?w1 = "w\<lparr>heap := heap w @ [Schedule_init i n d es ds]\<rparr>"
  let ?S = "Schedule_init i n d es ds :: 'a Schedule"
  have r: "length (heap w) < length (heap ?w1)" by simp
  have S: "heap ?w1 ! length (heap w) = ?S" by simp
  from add_events_built [OF add r] obtain ls where
    w2: "w2 = ?w1\<lparr>heap := (heap ?w1)[length (heap w) :=
                 (heap ?w1 ! length (heap w))\<lparr>event_listeners :=
                    event_listeners (heap ?w1 ! length (heap w)) @ ls\<rparr>]\<rparr>" and
    len: "length ls = length event_datas" and
    each: "\<forall>k<length event_datas. \<exists>t create.
                  getitem (event_datas ! k) ''type'' = Inr t \<and>
                  gc (''scheduler.'' @ py_str t) = Inr (Some create) \<and>
                  create (length (heap w)) ((heap ?w1 ! length (heap w))\<lparr>event_listeners :=
                       event_listeners (heap ?w1 ! length (heap w)) @ take k ls\<rparr>) (event_datas ! k) =
                    Inr (ls ! k)"
    by blast
  have w2': "w2 = w\<lparr>heap := heap w @ [?S\<lparr>event_listeners := ls\<rparr>]\<rparr>"
    using w2 by (simp add: Schedule_init_listeners)
  have each': "\<forall>k<length event_datas. \<exists>t create.
               getitem (event_datas ! k) ''type'' = Inr t \<and>
               gc (''scheduler.'' @ py_str t) = Inr (Some create) \<and>
               create (length (heap w)) (?S\<lparr>event_listeners := take k ls\<rparr>)
                 (event_datas ! k) = Inr (ls ! k)"
    using each by (simp add: Schedule_init_listeners)
  from sch have y: "y = PNone"
    by (auto simp: Schedule_schedule_def dest: schedule_events_Inr)
  from sch have h: "heap w' = heap w2"
    by (auto simp: Schedule_schedule_def dest: schedule_events_heap)
  have "w\<lparr>heap := heap w'\<rparr> = w2" using h w2' by simp
  with sch y have "Schedule_schedule ps (length (heap w)) (w\<lparr>heap := heap w'\<rparr>) = (Inr PNone, w')"
    by simp
  with keys len each' h w2' show ?thesis by auto
qed

text \<open>
  Claim C1. When \<open>setup_schedule\<close> succeeds on a description whose \<open>events\<close> are a
  list of N event records and whose \<open>entity_ids\<close> are a list, it has constructed one
  \<open>Schedule\<close>; that schedule has N listeners, the k-th being the one that the plug-in
  named by the k-th record's type created from that record, and its \<open>entity_ids\<close> are
  the description's list.
\<close>

theorem setup_schedule_round_trip:
  assumes "setup_schedule get_component ps schedule_data w = (Inr ok, w')"
    and "getitem schedule_data ''events'' = Inr (PList event_datas)"
    and "getitem schedule_data ''entity_ids'' = Inr (PList ids)"
  shows "\<exists>S. heap w' = heap w @ [S] \<and>
           length (event_listeners S) = length event_datas \<and>
           entity_ids S = PList ids \<and>
           (\<forall>k<length event_datas. \<exists>t create.
               getitem (event_datas ! k) ''type'' = Inr t \<and>
               get_component (''scheduler.'' @ py_str t) = Inr (Some create) \<and>
               create (length (heap w)) (S\<lparr>event_listeners := take k (event_listeners S)\<rparr>)
                 (event_datas ! k) = Inr (event_listeners S ! k))"
proof -
  from setup_schedule_success [OF assms(1)] obtain i n d es ds evs eds ls where
    keys: "getitem schedule_data ''entity_ids'' = Inr es" "getitem schedule_data ''events'' = Inr evs"
      "py_iter evs = Inr eds" and
    len: "length ls = length eds" and
    each: "\<forall>k<length eds. \<exists>t create.
               getitem (eds ! k) ''type'' = Inr t \<and>
               get_component (''scheduler.'' @ py_str t) = Inr (Some create) \<and>
               create (length (heap w))
                 ((Schedule_init i n d es ds)\<lparr>event_listeners := take k ls\<rparr>)
                 (eds ! k) = Inr (ls ! k)" and
    hp: "heap w' = heap w @ [(Schedule_init i n d es ds)\<lparr>event_listeners := ls\<rparr>]"
    by blast
  from keys assms(2,3) have eds: "eds = event_datas" and es: "es = PList ids"
    by auto
  let ?S = "(Schedule_init i n d es ds)\<lparr>event_listeners := ls\<rparr>"
  have ent: "entity_ids ?S = PList ids"
    using es by (simp add: Schedule_init_def py_or_def)
  show ?thesis
    using hp len each ent eds by (intro exI [of _ ?S]) simp
qed

theorem setup_schedule_round_trip_witness:
  "\<exists>w'. setup_schedule time_loader (register daily 0) morning_schedule empty_world = (Inr True, w') \<and>
     getitem morning_schedule ''events'' = Inr two_events \<and>
     (\<exists>S. heap w' = [S] \<and> length (event_listeners S) = 2 \<and>
        entity_ids S = PList [PStr ''light.kitchen'', PStr ''light.hall''] \<and>
        event_listeners S = [EventListener 0 (Some 25200), EventListener 0 (Some 79200)])"
proof -
  obtain w' where
    run: "setup_schedule time_loader (register daily 0) morning_schedule empty_world = (Inr True, w')"
    and ls: "event_listeners (heap w' ! 0) = [EventListener 0 (Some 25200), EventListener 0 (Some 79200)]"
    by (simp add: example_defs scheduler_defs clock_defs)
  have ev: "getitem morning_schedule ''events'' =
      Inr (PList [PDict [(''type'', PStr ''time''), (''time'', PInt 25200)],
                  PDict [(''type'', PStr ''time''), (''time'', PInt 79200)]])"
    by (simp add: example_defs)
  have en: "getitem morning_schedule ''entity_ids'' =
      Inr (PList [PStr ''light.kitchen'', PStr ''light.hall''])"
    by (simp add: example_defs)
  from setup_schedule_round_trip [OF run ev en] ls run ev show ?thesis
    by (auto simp: empty_world_def two_events_def)
qed

text \<open>
  Claim C7. The methods \<open>schedule\<close> and \<open>execute\<close> of the base class \<open>EventListener\<close>
  do nothing: each returns \<open>None\<close> and leaves the store of schedules and \<open>hass\<close> as
  they were, also when \<open>schedule\<close> is reached through the call \<open>event.schedule(hass)\<close>
  on an instance of the base class.
\<close>

theorem base_listener_methods_do_nothing:
  "EventListener_schedule self w = (Inr PNone, w) \<and>
   EventListener_execute self w = (Inr PNone, w) \<and>
   call_schedule ps (EventListener_init schedule) w = (Inr PNone, w)"
  by (simp add: EventListener_schedule_def EventListener_execute_def call_schedule_def
      EventListener_init_def)

text \<open>
  Claim C8. Whenever the component's \<open>setup\<close> returns without an exception it returns
  \<open>True\<close>: \<open>setup_schedule\<close> returns \<open>True\<close> or raises, so the branch returning
  \<open>False\<close> is never taken.
\<close>

theorem setup_returns_True:
  assumes "scheduler_setup get_component ps schedule_file w = (Inr ok, w')"
  shows "ok"
  using assms
  by (auto simp: scheduler_setup_def split: sum.splits dest: setup_schedules_True)

theorem setup_returns_True_witness:
  "\<exists>w'. scheduler_setup time_loader (register daily 0)
      (Inr (PList [morning_schedule, null_days_schedule])) empty_world = (Inr True, w')"
proof -
  obtain ok w' where
    run: "scheduler_setup time_loader (register daily 0)
      (Inr (PList [morning_schedule, null_days_schedule])) empty_world = (Inr ok, w')"
    by (simp add: scheduler_setup_def example_defs scheduler_defs clock_defs)
  from setup_returns_True [OF run] run show ?thesis by auto
qed

lemma omitted_days_KeyError:
  assumes "getitem sd ''id'' = Inr i" and "getitem sd ''name'' = Inr n"
    and "getitem sd ''description'' = Inr d" and "getitem sd ''entity_ids'' = Inr es"
    and "getitem sd ''days'' = Inl e"
  shows "setup_schedule gc ps sd w = (Inl e, w)"
  using assms by (simp add: setup_schedule_def)

text \<open>
  A description whose \<open>days\<close> key is present and holds \<open>None\<close>, or another value that
  counts as false, loads into a \<open>Schedule\<close> that is active on all seven weekdays.
\<close>

lemma unspecified_days_default_to_every_day:
  assumes "setup_schedule get_component ps schedule_data w = (Inr ok, w')"
    and "getitem schedule_data ''days'' = Inr ds"
    and "\<not> truthy ds"
  shows "days (heap w' ! length (heap w)) =
           PList [PInt 0, PInt 1, PInt 2, PInt 3, PInt 4, PInt 5, PInt 6] \<and>
         set (activeDays (heap w' ! length (heap w))) = {0..6}"
proof -
  from setup_schedule_success [OF assms(1)] obtain i n d es ds' ls where
    k: "getitem schedule_data ''days'' = Inr ds'" and
    hp: "heap w' = heap w @ [(Schedule_init i n d es ds')\<lparr>event_listeners := ls\<rparr>]"
    by blast
  from k assms(2) have "ds' = ds" by simp
  with hp assms(3) have d: "days (heap w' ! length (heap w)) =
           PList [PInt 0, PInt 1, PInt 2, PInt 3, PInt 4, PInt 5, PInt 6]"
    by (simp add: Schedule_init_def py_or_def)
  have "{0..6::int} = {0, 1, 2, 3, 4, 5, 6}" by auto
  with d show ?thesis
    by (simp add: activeDays_def List.map_filter_def)
qed

text \<open>
  Claim C5. The default of all seven weekdays does not reach a description that leaves the
  \<open>days\<close> key out: \<open>schedule_data['days']\<close> raises \<open>KeyError\<close> before any \<open>Schedule\<close>
  is constructed, although \<open>Schedule.__init__\<close> called without \<open>days\<close> sets all seven
  weekdays, as it does for a description whose \<open>days\<close> are \<open>None\<close>.
\<close>

theorem omitted_days_raise_KeyError:
  "setup_schedule time_loader (register daily 0) no_days_schedule empty_world =
     (Inl (KeyError ''days''), empty_world) \<and>
   days (Schedule_init (PStr ''s2'') (PStr ''S'') (PStr ''D'')
           (PList [PStr ''light.kitchen'']) PNone :: nat Schedule) =
     PList [PInt 0, PInt 1, PInt 2, PInt 3, PInt 4, PInt 5, PInt 6] \<and>
   days (heap (snd (setup_schedule time_loader (register daily 0) null_days_schedule
                      empty_world)) ! 0) =
     PList [PInt 0, PInt 1, PInt 2, PInt 3, PInt 4, PInt 5, PInt 6]"
  by (simp add: example_defs scheduler_defs clock_defs)

text \<open>
  Claim C6, as stated, fails: with listeners whose \<open>schedule\<close> registers a trigger,
  \<open>setup_schedule\<close> alone takes the clock from no pending trigger to two.
\<close>

theorem setup_schedule_registers_triggers:
  "length (pending (hass empty_world)) = 0 \<and>
   length (pending (hass (snd
     (setup_schedule time_loader (register daily 0) morning_schedule empty_world)))) = 2"
  by (simp add: example_defs scheduler_defs clock_defs)

text \<open>
  Claim C6, amended. A successful \<open>setup_schedule\<close> builds the \<open>Schedule\<close> and its
  listeners without touching \<open>hass\<close> and then itself runs \<open>Schedule.schedule\<close> on the
  new schedule, which returns \<open>None\<close>; what that call does to \<open>hass\<close> is the whole effect
  of \<open>setup_schedule\<close> on it, so the registration happens during loading.
\<close>

theorem setup_schedule_schedules_itself:
  assumes "setup_schedule get_component ps schedule_data w = (Inr ok, w')"
  shows "hass (w\<lparr>heap := heap w'\<rparr>) = hass w \<and>
         Schedule_schedule ps (length (heap w)) (w\<lparr>heap := heap w'\<rparr>) = (Inr PNone, w')"
  using setup_schedule_success [OF assms] by auto

theorem setup_schedule_schedules_itself_witness:
  "\<exists>w'. setup_schedule time_loader (register daily 0) morning_schedule empty_world = (Inr True, w') \<and>
     Schedule_schedule (register daily 0) 0 (empty_world\<lparr>heap := heap w'\<rparr>) = (Inr PNone, w') \<and>
     length (pending (hass w')) = 2"
proof -
  obtain w' where
    run: "setup_schedule time_loader (register daily 0) morning_schedule empty_world = (Inr True, w')"
    and n: "length (pending (hass w')) = 2"
    by (simp add: example_defs scheduler_defs clock_defs)
  from setup_schedule_schedules_itself [OF run] run n show ?thesis
    by (auto simp: empty_world_def)
qed

lemma add_events_append:
  "add_events gc r (pre @ rest) w =
     (case add_events gc r pre w of
        (Inl e, w') \<Rightarrow> (Inl e, w')
      | (Inr _, w') \<Rightarrow> add_events gc r rest w')"
  by (induction pre arbitrary: w) (auto split: sum.splits option.splits prod.splits)

lemma add_events_unresolved:
  assumes "getitem ev ''type'' = Inr t"
    and "\<forall>create. gc (''scheduler.'' @ py_str t) \<noteq> Inr (Some create)"
  shows "add_events gc r (ev # post) w =
           (Inl (case gc (''scheduler.'' @ py_str t) of
                   Inl e \<Rightarrow> e | Inr _ \<Rightarrow> AttributeError ''create''), w)"
  using assms by (auto split: sum.splits option.splits)

lemma add_events_frame:
  assumes "add_events gc r evs w = (Inr x, w')" and "r < length (heap w)"
  shows "hass w' = hass w \<and> length (heap w') = length (heap w) \<and>
         schedule_id (heap w' ! r) = schedule_id (heap w ! r)"
  using add_events_built [OF assms] assms(2) by auto

text \<open>
  Claim C2, as stated, fails: for the event type \<open>"foo"\<close>, which the loader does not
  know, \<open>setup_schedule\<close> raises the \<open>AttributeError\<close> of reading \<open>create\<close> from
  \<open>None\<close>, which names neither the type nor the schedule's id, and the \<open>Schedule\<close>
  object has been constructed by then.
\<close>

theorem unknown_type_gives_AttributeError:
  "setup_schedule time_loader (register daily 0) foo_schedule empty_world =
     (Inl (AttributeError ''create''),
      \<lparr>heap = [Schedule_init (PStr ''s1'') (PStr ''S'') (PStr ''D'')
                 (PList [PStr ''light.kitchen'']) (PList [PInt 0])],
       hass = empty_clock\<rparr>)"
  by (simp add: example_defs scheduler_defs)

lemma add_events_hass:
  "add_events gc r evs w = (res, w') \<Longrightarrow> hass w' = hass w \<and> length (heap w') = length (heap w)"
proof (induction evs arbitrary: w)
  case Nil
  then show ?case by simp
next
  case (Cons ev evs)
  then show ?case
    by (auto simp: add_event_listener_def split: sum.splits option.splits)
qed

lemma add_events_unresolved_member:
  assumes "ev \<in> set evs" and "getitem ev ''type'' = Inr t"
    and "\<forall>create. gc (''scheduler.'' @ py_str t) \<noteq> Inr (Some create)"
  shows "\<exists>e w'. add_events gc r evs w = (Inl e, w')"
  using assms(1)
proof (induction evs arbitrary: w)
  case Nil
  then show ?case by simp
next
  case (Cons a evs)
  show ?case
  proof (cases "a = ev")
    case True
    then show ?thesis
      using add_events_unresolved [where gc = gc, OF assms(2,3), of r evs w] by simp
  next
    case False
    with Cons.prems have "ev \<in> set evs" by simp
    from Cons.IH [OF this] show ?thesis
      by (auto split: sum.splits option.splits)
  qed
qed

lemma setup_schedule_unresolved_fails:
  assumes "getitem sd ''events'' = Inr evs" and "py_iter evs = Inr eds"
    and "ev \<in> set eds" and "getitem ev ''type'' = Inr t"
    and "\<forall>create. gc (''scheduler.'' @ py_str t) \<noteq> Inr (Some create)"
  shows "\<exists>e w1. setup_schedule gc ps sd w = (Inl e, w1) \<and> hass w1 = hass w"
proof (cases "\<exists>i n d es ds. getitem sd ''id'' = Inr i \<and> getitem sd ''name'' = Inr n \<and>
    getitem sd ''description'' = Inr d \<and> getitem sd ''entity_ids'' = Inr es \<and>
    getitem sd ''days'' = Inr ds")
  case True
  then obtain i n d es ds where
    k: "getitem sd ''id'' = Inr i" "getitem sd ''name'' = Inr n"
      "getitem sd ''description'' = Inr d" "getitem sd ''entity_ids'' = Inr es"
      "getitem sd ''days'' = Inr ds"
    by blast
  let ?w1 = "w\<lparr>heap := heap w @ [Schedule_init i n d es ds]\<rparr>"
  from add_events_unresolved_member [where gc = gc, OF assms(3,4,5)] obtain e w2 where
    f: "add_events gc (length (heap w)) eds ?w1 = (Inl e, w2)"
    by blast
  from add_events_hass [OF f] have "hass w2 = hass w" by simp
  moreover have "setup_schedule gc ps sd w = (Inl e, w2)"
    using k assms(1,2) f by (simp add: setup_schedule_def Let_def)
  ultimately show ?thesis by blast
next
  case False
  then show ?thesis
    by (auto simp: setup_schedule_def split: sum.splits)
qed

lemma setup_schedules_append:
  "setup_schedules gc ps (before @ rest) w =
     (case setup_schedules gc ps before w of
        (Inl e, w') \<Rightarrow> (Inl e, w')
      | (Inr ok, w') \<Rightarrow> if ok then setup_schedules gc ps rest w' else (Inr False, w'))"
proof (induction before arbitrary: w)
  case Nil
  show ?case by simp
next
  case (Cons d before)
  show ?case
    using Cons.IH
    by (auto split: sum.splits prod.splits dest: setup_schedule_True)
qed

lemma setup_schedules_member_fails:
  assumes "sd \<in> set ds" and "\<forall>w0. \<exists>e w1. setup_schedule gc ps sd w0 = (Inl e, w1)"
  shows "\<exists>e w'. setup_schedules gc ps ds w = (Inl e, w')"
  using assms(1)
proof (induction ds arbitrary: w)
  case Nil
  then show ?case by simp
next
  case (Cons a ds)
  obtain r1 w1 where c: "setup_schedule gc ps a w = (r1, w1)"
    by (cases "setup_schedule gc ps a w")
  show ?case
  proof (cases r1)
    case (Inl e)
    with c show ?thesis by simp
  next
    case (Inr ok)
    with c have ok by (auto dest: setup_schedule_True)
    have "a \<noteq> sd"
      using assms(2) c Inr by (metis Inl_Inr_False fst_conv)
    with Cons.prems have "sd \<in> set ds" by simp
    from Cons.IH [OF this, of w1] c Inr \<open>ok\<close> show ?thesis by simp
  qed
qed


text \<open>
  Claim C2, amended. Let a sequence of descriptions hold a description one of whose event
  records has a type that the loader does not resolve to a plug-in (it raises, or returns
  \<open>None\<close>). Then \<open>setup\<close> fails; when the descriptions before it load, the exception
  that \<open>setup_schedule\<close> raises on that description is the one that leaves \<open>setup\<close>.
  On that description \<open>setup_schedule\<close> fails from every state, and schedules nothing:
  \<open>hass\<close> is unchanged. When the description has its keys and the records before the
  unresolved one were set up, the exception is the loader's own, or \<open>AttributeError\<close>
  when the loader returned \<open>None\<close>, so it is fixed by the component name alone; and the
  \<open>Schedule\<close> built from the description's keys has been constructed and holds, in order,
  the listeners created from those earlier records.
\<close>

theorem unresolved_type_fails_load:
  assumes "py_iter schedule_descriptions = Inr (before @ schedule_data # after)"
    and "getitem schedule_data ''events'' = Inr evs"
    and "py_iter evs = Inr (pre @ event_data # post)"
    and "getitem event_data ''type'' = Inr t"
    and "\<forall>create. get_component (''scheduler.'' @ py_str t) \<noteq> Inr (Some create)"
  shows "(\<exists>e w'. scheduler_setup get_component ps (Inr schedule_descriptions) w = (Inl e, w')) \<and>
         (\<forall>wb e w1.
            setup_schedules get_component ps before w = (Inr True, wb) \<and>
            setup_schedule get_component ps schedule_data wb = (Inl e, w1) \<longrightarrow>
            scheduler_setup get_component ps (Inr schedule_descriptions) w = (Inl e, w1)) \<and>
         (\<forall>w0. \<exists>e w1. setup_schedule get_component ps schedule_data w0 = (Inl e, w1) \<and>
                  hass w1 = hass w0) \<and>
         (\<forall>w0 i n d es dys x w2.
            getitem schedule_data ''id'' = Inr i \<and> getitem schedule_data ''name'' = Inr n \<and>
            getitem schedule_data ''description'' = Inr d \<and>
            getitem schedule_data ''entity_ids'' = Inr es \<and>
            getitem schedule_data ''days'' = Inr dys \<and>
            add_events get_component (length (heap w0)) pre
              (w0\<lparr>heap := heap w0 @ [Schedule_init i n d es dys]\<rparr>) = (Inr x, w2) \<longrightarrow>
            setup_schedule get_component ps schedule_data w0 =
              (Inl (case get_component (''scheduler.'' @ py_str t) of
                      Inl e \<Rightarrow> e | Inr _ \<Rightarrow> AttributeError ''create''), w2) \<and>
            hass w2 = hass w0 \<and>
            (\<exists>ls. heap w2 = heap w0 @ [(Schedule_init i n d es dys)\<lparr>event_listeners := ls\<rparr>] \<and>
                  length ls = length pre \<and>
                  (\<forall>k<length pre. \<exists>t' create.
                      getitem (pre ! k) ''type'' = Inr t' \<and>
                      get_component (''scheduler.'' @ py_str t') = Inr (Some create) \<and>
                      create (length (heap w0))
                        ((Schedule_init i n d es dys)\<lparr>event_listeners := take k ls\<rparr>)
                        (pre ! k) = Inr (ls ! k))))"
proof (intro conjI allI impI)
  have mem: "event_data \<in> set (pre @ event_data # post)" by simp
  have fails: "\<exists>e w1. setup_schedule get_component ps schedule_data w0 = (Inl e, w1) \<and>
      hass w1 = hass w0" for w0
    using setup_schedule_unresolved_fails
      [where gc = get_component, OF assms(2,3) mem assms(4,5)] .
  show "\<exists>e w1. setup_schedule get_component ps schedule_data w0 = (Inl e, w1) \<and>
      hass w1 = hass w0" for w0
    by (rule fails)
  have "\<forall>w0. \<exists>e w1. setup_schedule get_component ps schedule_data w0 = (Inl e, w1)"
    using fails by blast
  moreover have "schedule_data \<in> set (before @ schedule_data # after)" by simp
  ultimately have "\<exists>e w'. setup_schedules get_component ps (before @ schedule_data # after) w =
      (Inl e, w')"
    by (rule setup_schedules_member_fails [rotated])
  then show "\<exists>e w'. scheduler_setup get_component ps (Inr schedule_descriptions) w = (Inl e, w')"
    using assms(1) by (simp add: scheduler_setup_def)
next
  fix wb e w1
  assume "setup_schedules get_component ps before w = (Inr True, wb) \<and>
          setup_schedule get_component ps schedule_data wb = (Inl e, w1)"
  then show "scheduler_setup get_component ps (Inr schedule_descriptions) w = (Inl e, w1)"
    using assms(1) by (simp add: scheduler_setup_def setup_schedules_append)
next
  fix w0 :: "('a, 'b) world" and i n d es dys x w2
  assume a: "getitem schedule_data ''id'' = Inr i \<and> getitem schedule_data ''name'' = Inr n \<and>
            getitem schedule_data ''description'' = Inr d \<and>
            getitem schedule_data ''entity_ids'' = Inr es \<and>
            getitem schedule_data ''days'' = Inr dys \<and>
            add_events get_component (length (heap w0)) pre
              (w0\<lparr>heap := heap w0 @ [Schedule_init i n d es dys]\<rparr>) = (Inr x, w2)"
  let ?S = "Schedule_init i n d es dys :: 'a Schedule"
  let ?w1 = "w0\<lparr>heap := heap w0 @ [?S]\<rparr>"
  let ?err = "case get_component (''scheduler.'' @ py_str t) of
                Inl e \<Rightarrow> e | Inr _ \<Rightarrow> AttributeError ''create''"
  from a have pre: "add_events get_component (length (heap w0)) pre ?w1 = (Inr x, w2)"
    by simp
  have "add_events get_component (length (heap w0)) (pre @ event_data # post) ?w1 =
          add_events get_component (length (heap w0)) (event_data # post) w2"
    using pre by (simp add: add_events_append)
  also have "\<dots> = (Inl ?err, w2)"
    using assms(4,5) by (rule add_events_unresolved)
  finally have loop: "add_events get_component (length (heap w0)) (pre @ event_data # post) ?w1 =
      (Inl ?err, w2)" .
  show "setup_schedule get_component ps schedule_data w0 = (Inl ?err, w2)"
    using a assms(2,3) loop by (simp add: setup_schedule_def Let_def)
  have r: "length (heap w0) < length (heap ?w1)" by simp
  from add_events_hass [OF pre] show "hass w2 = hass w0" by simp
  from add_events_built [OF pre r] obtain ls where
    w2: "w2 = ?w1\<lparr>heap := (heap ?w1)[length (heap w0) :=
                 (heap ?w1 ! length (heap w0))\<lparr>event_listeners :=
                    event_listeners (heap ?w1 ! length (heap w0)) @ ls\<rparr>]\<rparr>" and
    len: "length ls = length pre" and
    each: "\<forall>k<length pre. \<exists>t create.
                  getitem (pre ! k) ''type'' = Inr t \<and>
                  get_component (''scheduler.'' @ py_str t) = Inr (Some create) \<and>
                  create (length (heap w0)) ((heap ?w1 ! length (heap w0))\<lparr>event_listeners :=
                       event_listeners (heap ?w1 ! length (heap w0)) @ take k ls\<rparr>) (pre ! k) =
                    Inr (ls ! k)"
    by blast
  have hp: "heap w2 = heap w0 @ [?S\<lparr>event_listeners := ls\<rparr>]"
    using w2 by (simp add: Schedule_init_listeners)
  have each': "\<forall>k<length pre. \<exists>t' create.
                      getitem (pre ! k) ''type'' = Inr t' \<and>
                      get_component (''scheduler.'' @ py_str t') = Inr (Some create) \<and>
                      create (length (heap w0)) (?S\<lparr>event_listeners := take k ls\<rparr>)
                        (pre ! k) = Inr (ls ! k)"
    using each by (simp add: Schedule_init_listeners)
  show "\<exists>ls. heap w2 = heap w0 @ [?S\<lparr>event_listeners := ls\<rparr>] \<and>
                  length ls = length pre \<and>
                  (\<forall>k<length pre. \<exists>t' create.
                      getitem (pre ! k) ''type'' = Inr t' \<and>
                      get_component (''scheduler.'' @ py_str t') = Inr (Some create) \<and>
                      create (length (heap w0)) (?S\<lparr>event_listeners := take k ls\<rparr>)
                        (pre ! k) = Inr (ls ! k))"
    using hp len each' by blast
qed


theorem unresolved_type_fails_load_witness:
  "py_iter (PList [morning_schedule, half_schedule]) =
     Inr ([morning_schedule] @ half_schedule # []) \<and>
   getitem (PDict [(''type'', PStr ''foo'')]) ''type'' = Inr (PStr ''foo'') \<and>
   (\<forall>create. time_loader (''scheduler.'' @ py_str (PStr ''foo'')) \<noteq> Inr (Some create)) \<and>
   (\<exists>w'. scheduler_setup time_loader (register daily 0)
            (Inr (PList [morning_schedule, half_schedule])) empty_world =
            (Inl (AttributeError ''create''), w') \<and>
         length (heap w') = 2 \<and>
         schedule_id (heap w' ! 1) = PStr ''s4'' \<and>
         event_listeners (heap w' ! 1) = [EventListener 1 (Some 25200)] \<and>
         length (pending (hass w')) = 2)"
proof -
  have h1: "py_iter (PList [morning_schedule, half_schedule]) =
      Inr ([morning_schedule] @ half_schedule # [])"
    by simp
  have h2: "getitem half_schedule ''events'' =
      Inr (PList [PDict [(''type'', PStr ''time''), (''time'', PInt 25200)],
                  PDict [(''type'', PStr ''foo'')]])"
    by (simp add: half_schedule_def)
  have h3: "py_iter (PList [PDict [(''type'', PStr ''time''), (''time'', PInt 25200)],
                            PDict [(''type'', PStr ''foo'')]]) =
      Inr ([PDict [(''type'', PStr ''time''), (''time'', PInt 25200)]] @
           PDict [(''type'', PStr ''foo'')] # [])"
    by simp
  have h4: "getitem (PDict [(''type'', PStr ''foo'')]) ''type'' = Inr (PStr ''foo'')"
    by simp
  have h5: "\<forall>create. time_loader (''scheduler.'' @ py_str (PStr ''foo'')) \<noteq> Inr (Some create)"
    by (simp add: time_loader_def py_str_def)
  obtain r w' where
    run: "scheduler_setup time_loader (register daily 0)
            (Inr (PList [morning_schedule, half_schedule])) empty_world = (r, w')" and
    facts: "length (heap w') = 2" "schedule_id (heap w' ! 1) = PStr ''s4''"
      "event_listeners (heap w' ! 1) = [EventListener 1 (Some 25200)]"
      "length (pending (hass w')) = 2" and
    r: "r = Inl (AttributeError ''create'')"
    by (simp add: scheduler_setup_def example_defs scheduler_defs clock_defs)
  from unresolved_type_fails_load
    [where get_component = time_loader, OF h1 h2 h3 h4 h5, of "register daily 0" empty_world]
  have "\<exists>e w''. scheduler_setup time_loader (register daily 0)
            (Inr (PList [morning_schedule, half_schedule])) empty_world = (Inl e, w'')"
    by (rule conjunct1)
  with run r facts h1 h4 h5 show ?thesis
    by blast
qed

lemma insert_trigger_set: "set (insert_trigger t ts) = insert t (set ts)"
  by (induction ts) auto

lemma insert_trigger_length: "length (insert_trigger t ts) = Suc (length ts)"
  by (induction ts) auto

lemma call_schedule_register:
  "\<exists>w1. call_schedule (register cnf now) l w = (Inr PNone, w1) \<and>
     heap w1 = heap w \<and>
     executed (hass w1) = executed (hass w) \<and>
     length (pending (hass w1)) =
       length (pending (hass w)) + (if derived l = None then 0 else 1) \<and>
     set (pending (hass w1)) =
       set (pending (hass w)) \<union>
       (if derived l = None then {}
        else {\<lparr>fireAt = cnf l now, weekdayGate = activeDays (heap w ! l_schedule l),
               handler = l\<rparr>})"
proof (cases "derived l")
  case None
  then show ?thesis
    by (simp add: call_schedule_def EventListener_schedule_def)
next
  case (Some p)
  then show ?thesis
    by (simp add: call_schedule_def register_def registerTrigger_def insert_trigger_length
        insert_trigger_set)
qed

lemma schedule_events_register:
  "\<exists>w'. schedule_events (register cnf now) ls (w :: ('p, 'p clock) world) = (Inr PNone, w') \<and>
     heap w' = heap w \<and>
     executed (hass w') = executed (hass w) \<and>
     length (pending (hass w')) =
       length (pending (hass w)) + length (filter (\<lambda>x. derived x \<noteq> None) ls) \<and>
     set (pending (hass w')) =
       set (pending (hass w)) \<union>
       (\<lambda>l. \<lparr>fireAt = cnf l now, weekdayGate = activeDays (heap w ! l_schedule l),
              handler = l\<rparr>) ` {x \<in> set ls. derived x \<noteq> None}"
proof (induction ls arbitrary: w)
  case Nil
  show ?case by simp
next
  case (Cons l ls)
  define mk where "mk = (\<lambda>(hp :: 'p Schedule list) l. \<lparr>fireAt = cnf l now,
    weekdayGate = activeDays (hp ! l_schedule l), handler = l\<rparr>)"
  from call_schedule_register [of cnf now l w] obtain w1 where
    step: "call_schedule (register cnf now) l w = (Inr PNone, w1)" and
    h1: "heap w1 = heap w" and
    e1: "executed (hass w1) = executed (hass w)" and
    l1: "length (pending (hass w1)) =
       length (pending (hass w)) + (if derived l = None then 0 else 1)" and
    s1: "set (pending (hass w1)) =
       set (pending (hass w)) \<union> (if derived l = None then {} else {mk (heap w) l})"
    unfolding mk_def by blast
  from Cons.IH [of w1] obtain w' where
    run: "schedule_events (register cnf now) ls w1 = (Inr PNone, w')" and
    hp: "heap w' = heap w1" and
    ex: "executed (hass w') = executed (hass w1)" and
    len: "length (pending (hass w')) =
       length (pending (hass w1)) + length (filter (\<lambda>x. derived x \<noteq> None) ls)" and
    st: "set (pending (hass w')) =
       set (pending (hass w1)) \<union> mk (heap w1) ` {x \<in> set ls. derived x \<noteq> None}"
    unfolding mk_def by blast
  have a: "schedule_events (register cnf now) (l # ls) w = (Inr PNone, w')"
    using step run by simp
  have b: "heap w' = heap w" using hp h1 by simp
  have c: "executed (hass w') = executed (hass w)" using ex e1 by simp
  have d: "length (pending (hass w')) =
       length (pending (hass w)) + length (filter (\<lambda>x. derived x \<noteq> None) (l # ls))"
    using len l1 by simp
  have e: "set (pending (hass w')) =
       set (pending (hass w)) \<union> mk (heap w) ` {x \<in> set (l # ls). derived x \<noteq> None}"
    unfolding st s1 h1 by auto
  from a b c d e show ?case
    unfolding mk_def by blast
qed

lemma schedule_events_in_order:
  assumes "\<forall>l \<in> set ls. derived l \<noteq> None"
  shows "schedule_events (\<lambda>l hp x. Inr (f l hp x)) ls w =
           (Inr PNone, w\<lparr>hass := fold (\<lambda>l. f l (heap w)) ls (hass w)\<rparr>)"
  using assms
proof (induction ls arbitrary: w)
  case Nil
  show ?case by simp
next
  case (Cons l ls)
  from Cons.prems obtain p where p: "derived l = Some p" by auto
  from Cons.prems have rest: "\<forall>l \<in> set ls. derived l \<noteq> None" by simp
  have step: "call_schedule (\<lambda>l hp x. Inr (f l hp x)) l w =
      (Inr PNone, w\<lparr>hass := f l (heap w) (hass w)\<rparr>)"
    using p by (simp add: call_schedule_def)
  show ?case
    using step Cons.IH [OF rest, of "w\<lparr>hass := f l (heap w) (hass w)\<rparr>"] by simp
qed

text \<open>
  Claim C3, amended. On a schedule all of whose listeners are plug-in listeners, every call
  of \<open>Schedule.schedule\<close> returns \<open>None\<close>, and no call raises. With listeners that
  register one trigger when scheduled, each call adds one pending trigger per listener:
  the handler count after the first call, twice the handler count after the second. With
  any listener method that returns, from any \<open>hass\<close>, the call runs the method of each
  owned listener once, in the order in which the listeners were added.
\<close>

theorem schedule_registers_on_every_call:
  assumes "\<forall>l \<in> set (event_listeners (heap w ! self)). derived l \<noteq> None"
  shows "(\<exists>w1 w2.
           Schedule_schedule (register cnf now) self w = (Inr PNone, w1) \<and>
           length (pending (hass w1)) =
             length (pending (hass w)) + length (event_listeners (heap w ! self)) \<and>
           Schedule_schedule (register cnf now') self w1 = (Inr PNone, w2) \<and>
           length (pending (hass w2)) =
             length (pending (hass w)) + 2 * length (event_listeners (heap w ! self))) \<and>
         (\<forall>f h. Schedule_schedule (\<lambda>l hp x. Inr (f l hp x)) self (w\<lparr>hass := h\<rparr>) =
             (Inr PNone,
              w\<lparr>hass := fold (\<lambda>l. f l (heap w)) (event_listeners (heap w ! self)) h\<rparr>))"
proof
  let ?ls = "event_listeners (heap w ! self)"
  from assms have all: "filter (\<lambda>x. derived x \<noteq> None) ?ls = ?ls"
    by (simp add: filter_id_conv)
  from schedule_events_register [of cnf now ?ls w] obtain w1 where
    r1: "schedule_events (register cnf now) ?ls w = (Inr PNone, w1)" and
    h1: "heap w1 = heap w" and
    l1: "length (pending (hass w1)) =
       length (pending (hass w)) + length (filter (\<lambda>x. derived x \<noteq> None) ?ls)"
    by blast
  from schedule_events_register [of cnf now' ?ls w1] obtain w2 where
    r2: "schedule_events (register cnf now') ?ls w1 = (Inr PNone, w2)" and
    l2: "length (pending (hass w2)) =
       length (pending (hass w1)) + length (filter (\<lambda>x. derived x \<noteq> None) ?ls)"
    by blast
  from r1 r2 h1 l1 l2 all show "\<exists>w1 w2.
           Schedule_schedule (register cnf now) self w = (Inr PNone, w1) \<and>
           length (pending (hass w1)) =
             length (pending (hass w)) + length (event_listeners (heap w ! self)) \<and>
           Schedule_schedule (register cnf now') self w1 = (Inr PNone, w2) \<and>
           length (pending (hass w2)) =
             length (pending (hass w)) + 2 * length (event_listeners (heap w ! self))"
    by (simp add: Schedule_schedule_def)
next
  show "\<forall>f h. Schedule_schedule (\<lambda>l hp x. Inr (f l hp x)) self (w\<lparr>hass := h\<rparr>) =
             (Inr PNone,
              w\<lparr>hass := fold (\<lambda>l. f l (heap w)) (event_listeners (heap w ! self)) h\<rparr>)"
    using schedule_events_in_order [OF assms, where w = "w\<lparr>hass := h\<rparr>" for h]
    by (simp add: Schedule_schedule_def)
qed

theorem schedule_registers_on_every_call_witness:
  "map derived (event_listeners (heap (built_world (PList [PInt 0])) ! 0)) =
     [Some 25200, Some 79200] \<and>
   (\<exists>w1 w2.
      Schedule_schedule (register daily 0) 0 (built_world (PList [PInt 0])) = (Inr PNone, w1) \<and>
      length (pending (hass w1)) = 2 \<and>
      Schedule_schedule (register daily 0) 0 w1 = (Inr PNone, w2) \<and>
      length (pending (hass w2)) = 4 \<and>
      map handler (pending (hass w2)) =
        [EventListener 0 (Some 25200), EventListener 0 (Some 25200),
         EventListener 0 (Some 79200), EventListener 0 (Some 79200)])"
proof -
  have h: "\<forall>l \<in> set (event_listeners (heap (built_world (PList [PInt 0])) ! 0)). derived l \<noteq> None"
    by (simp add: built_world_def)
  have m: "map derived (event_listeners (heap (built_world (PList [PInt 0])) ! 0)) =
     [Some 25200, Some 79200]"
    by (simp add: built_world_def)
  obtain w1 w2 where
    r1: "Schedule_schedule (register daily 0) 0 (built_world (PList [PInt 0])) = (Inr PNone, w1)" and
    r2: "Schedule_schedule (register daily 0) 0 w1 = (Inr PNone, w2)" and
    hs: "map handler (pending (hass w2)) =
        [EventListener 0 (Some 25200), EventListener 0 (Some 25200),
         EventListener 0 (Some 79200), EventListener 0 (Some 79200)]"
    by (simp add: example_defs scheduler_defs clock_defs)
  from schedule_registers_on_every_call [OF h, of daily 0 0]
  have "\<exists>w1 w2.
      Schedule_schedule (register daily 0) 0 (built_world (PList [PInt 0])) = (Inr PNone, w1) \<and>
      length (pending (hass w1)) =
        length (pending (hass (built_world (PList [PInt 0])))) +
        length (event_listeners (heap (built_world (PList [PInt 0])) ! 0)) \<and>
      Schedule_schedule (register daily 0) 0 w1 = (Inr PNone, w2) \<and>
      length (pending (hass w2)) =
        length (pending (hass (built_world (PList [PInt 0])))) +
        2 * length (event_listeners (heap (built_world (PList [PInt 0])) ! 0))"
    by (rule conjunct1)
  with r1 r2 hs m show ?thesis
    by (auto simp: built_world_def empty_clock_def)
qed

text \<open>
  Claim C3, as stated, fails: on a schedule with two registering listeners a second call
  of \<open>Schedule.schedule\<close> returns \<open>None\<close> as the first did, and the clock then holds
  four pending triggers.
\<close>

theorem second_schedule_call_registers_again:
  "fst (Schedule_schedule (register daily 0) 0
          (snd (Schedule_schedule (register daily 0) 0
                  (built_world (PList [PInt 0, PInt 2, PInt 4]))))) = Inr PNone \<and>
   length (pending (hass (snd (Schedule_schedule (register daily 0) 0
          (snd (Schedule_schedule (register daily 0) 0
                  (built_world (PList [PInt 0, PInt 2, PInt 4])))))))) = 4"
  by (simp add: example_defs scheduler_defs clock_defs)












text \<open>
  On an active day the clock invokes the handlers: a Monday tick on a schedule active on
  Mondays, Wednesdays and Fridays executes both of its due triggers.
\<close>

lemma tick_fires_on_active_day:
  "weekday_of 370800 = 0 \<and>
   executed (tick daily weekday_of 370800
     (hass (snd (Schedule_schedule (register daily 0) 0
        (built_world (PList [PInt 0, PInt 2, PInt 4])))))) =
     [(EventListener 0 (Some 25200), 370800), (EventListener 0 (Some 79200), 370800)]"
  by (simp add: example_defs scheduler_defs clock_defs)




end
